theory Spec2Isabelle
  imports Main "HOL-Library.Log_Nat" "HOL-Library.AList"
begin

section \<open>Numbers and time as the server computes with them\<close>

text \<open>
  The server (\<^verbatim>\<open>src/ltms/scripts/server.py\<close>) mixes three kinds of numbers:
  \<^item> \<^verbatim>\<open>datetime\<close> and \<^verbatim>\<open>timedelta\<close> values, which Python keeps as exact counts of
    microseconds. A naive \<^verbatim>\<open>datetime\<close> is modelled as the number of microseconds since
    \<^verbatim>\<open>0001-01-01T00:00:00\<close>, a \<^verbatim>\<open>timedelta\<close> as a number of microseconds. The range limit
    of \<^verbatim>\<open>datetime\<close> (years 1 to 9999) is not modelled.
  \<^item> Python \<^verbatim>\<open>int\<close>s (the class constants), modelled as \<open>int\<close>.
  \<^item> Python \<^verbatim>\<open>float\<close>s (the entry window of a request, \<^verbatim>\<open>TIME_STEP\<close>, the results of
    \<^verbatim>\<open>total_seconds()\<close>). A finite double is modelled as the rational it denotes and every
    floating-point operation as the exact operation followed by rounding to the nearest
    double, ties to even (\<open>rnd\<close>). Infinities, NaN, signed zero, overflow and subnormal
    numbers are not modelled.
\<close>

type_synonym datetime = int
type_synonym timedelta = int
type_synonym float = rat

definition round_half_even :: "rat \<Rightarrow> int" where
  "round_half_even x =
     (let f = \<lfloor>x\<rfloor>; d = x - of_int f in
      if d < 1 / 2 then f else if 1 / 2 < d then f + 1 else if even f then f else f + 1)"

definition pow2 :: "int \<Rightarrow> rat" where
  "pow2 k = (if 0 \<le> k then 2 ^ nat k else 1 / 2 ^ nat (- k))"

text \<open>The binary exponent of a positive rational: \<open>pow2 e \<le> x < pow2 (e + 1)\<close>.\<close>

definition float_exponent :: "rat \<Rightarrow> int" where
  "float_exponent x = (if 1 \<le> x then bitlen \<lfloor>x\<rfloor> - 1 else - bitlen (\<lceil>1 / x\<rceil> - 1))"

text \<open>Rounding to a double: 53 significant bits, nearest, ties to even.\<close>

definition rnd :: "rat \<Rightarrow> float" where
  "rnd x = (if x = 0 then 0 else
     let u = pow2 (float_exponent \<bar>x\<bar> - 52) in of_int (round_half_even (x / u)) * u)"

definition trunc :: "rat \<Rightarrow> int" where
  "trunc x = (if 0 \<le> x then \<lfloor>x\<rfloor> else \<lceil>x\<rceil>)"

text \<open>\<^verbatim>\<open>a + b\<close>, \<^verbatim>\<open>a - b\<close> and \<^verbatim>\<open>a / b\<close> on floats.\<close>

definition fadd :: "float \<Rightarrow> float \<Rightarrow> float" where
  "fadd a b = rnd (a + b)"

definition fsub :: "float \<Rightarrow> float \<Rightarrow> float" where
  "fsub a b = rnd (a - b)"

definition fdiv :: "float \<Rightarrow> float \<Rightarrow> float" where
  "fdiv a b = rnd (a / b)"

text \<open>
  \<^verbatim>\<open>x % y\<close> on floats for a positive \<open>y\<close>: C's \<^verbatim>\<open>fmod\<close>, which is exact, and one
  addition of \<open>y\<close> when the remainder is negative.
\<close>

definition fmod :: "float \<Rightarrow> float \<Rightarrow> float" where
  "fmod x y = (let m = x - y * of_int (trunc (x / y)) in if m < 0 then fadd m y else m)"

text \<open>
  \<^verbatim>\<open>round(x, 1)\<close>: the exact value of \<open>x\<close> is rounded to one decimal, ties to even, and
  the decimal is read back as a double.
\<close>

definition round1 :: "float \<Rightarrow> float" where
  "round1 x = rnd (of_int (round_half_even (x * 10)) / 10)"

text \<open>\<^verbatim>\<open>timedelta(seconds=n)\<close> for an \<^verbatim>\<open>int\<close> and for a \<^verbatim>\<open>float\<close>, and \<^verbatim>\<open>total_seconds()\<close>.\<close>

definition timedelta_seconds :: "int \<Rightarrow> timedelta" where
  "timedelta_seconds n = n * 1000000"

definition timedelta_seconds_float :: "float \<Rightarrow> timedelta" where
  "timedelta_seconds_float x =
     (let intpart = trunc x; fracpart = x - of_int intpart in
      intpart * 1000000 + round_half_even (rnd (1000000 * fracpart)))"

definition total_seconds :: "timedelta \<Rightarrow> float" where
  "total_seconds d = rnd (of_int d / 1000000)"

text \<open>\<^verbatim>\<open>datetime.replace(microsecond=0)\<close>.\<close>

definition replace_microsecond_0 :: "datetime \<Rightarrow> datetime" where
  "replace_microsecond_0 t = t - t mod 1000000"

section \<open>Class constants of \<^verbatim>\<open>Server\<close>\<close>

definition TIME_HORIZON :: int where "TIME_HORIZON = 15"
definition TIME_STEP :: float where "TIME_STEP = rnd (2 / 10)"
definition MAX_WINDOW_ENTRY :: int where "MAX_WINDOW_ENTRY = 2"
definition SESSION_TIMEOUT :: timedelta where "SESSION_TIMEOUT = timedelta_seconds 30"
definition TRANSIT_TIME :: int where "TRANSIT_TIME = 15"
definition COMPUTE_TIME :: int where "COMPUTE_TIME = 10"

definition LOCATIONS0 :: "string list" where
  "LOCATIONS0 = [''left'', ''top'', ''right'', ''bottom'']"

definition ENTRY_LOCATIONS :: "string list" where
  "ENTRY_LOCATIONS = LOCATIONS0 @ [''init'']"

definition EXIT_LOCATIONS :: "string list" where
  "EXIT_LOCATIONS = LOCATIONS0"

text \<open>
  The keys of \<^verbatim>\<open>PERMITTED_ROUTES\<close>: every pair of two different locations of
  \<^verbatim>\<open>_LOCATIONS\<close>, and \<^verbatim>\<open>('init', 'left')\<close>.
\<close>

definition PERMITTED_ROUTES :: "(string \<times> string) list" where
  "PERMITTED_ROUTES =
     concat (map (\<lambda>en. map (\<lambda>ex. (en, ex)) (filter (\<lambda>ex. ex \<noteq> en) LOCATIONS0)) LOCATIONS0)
     @ [(''init'', ''left'')]"

section \<open>Sessions and reservations\<close>

text \<open>
  A safety tube (\<^verbatim>\<open>result['pass4']\<close>) is an array with one row per point of the solver's
  timeline; a row is a grid of values, kept here as the flat list of them.
\<close>

type_synonym tube = "rat list list"

text \<open>The \<^verbatim>\<open>result\<close> dictionary that \<^verbatim>\<open>run_analysis\<close> fills.\<close>

record analysis_result =
  res_earliest_entry :: float
  res_latest_entry :: float
  res_earliest_exit :: float
  res_latest_exit :: float
  pass4 :: tube

text \<open>The keyword dictionary that \<^verbatim>\<open>reserve\<close> hands to \<^verbatim>\<open>add_reservation\<close>.\<close>

record reservation_dict =
  name :: string
  time_ref :: datetime
  entry :: string
  exit :: string
  earliest_entry :: float
  latest_entry :: float
  earliest_exit :: float
  latest_exit :: float
  analysis :: analysis_result

text \<open>
  A session dictionary. \<open>reservation = None\<close> is the empty dictionary \<^verbatim>\<open>{}\<close> that
  \<^verbatim>\<open>connect_srv\<close> stores.
\<close>

record session =
  sess_latest_reserve_time :: datetime
  arrival_time :: datetime
  session_timeout :: datetime
  reserved :: bool
  reservation :: "reservation_dict option"

text \<open>
  \<^verbatim>\<open>self.sessions\<close> is a Python dictionary: keys are unique and iteration follows insertion
  order. It is an association list; \<open>AList.update\<close> overwrites in place or appends, as
  assignment to a dictionary key does.
\<close>

type_synonym sessions = "(string \<times> session) list"

datatype exn = ValueError_isoformat | ValueError_broadcast | KeyError

text \<open>
  The solver (\<^verbatim>\<open>ltms_util.Solver\<close>) is not part of the sources. What the server uses of it
  is taken as a parameter: the length of its timeline, the number of cells of the grid,
  and \<^verbatim>\<open>run_analysis\<close> as a function of \<^verbatim>\<open>max_window_entry\<close>, the entry and exit
  locations and the dangers, which either raises an \<^verbatim>\<open>AssertionError\<close> with a message
  (\<open>Inl\<close>) or fills \<^verbatim>\<open>result\<close> (\<open>Inr\<close>).
\<close>

record solver =
  timeline_len :: nat
  grid_size :: nat
  run_analysis :: "float \<Rightarrow> string \<Rightarrow> string \<Rightarrow> tube list \<Rightarrow> string + analysis_result"

subsection \<open>Store access\<close>


definition get_reservations :: "sessions \<Rightarrow> (string \<times> reservation_dict option) list" where
  "get_reservations sessions =
     map (\<lambda>(sid, sess). (sid, reservation sess)) (filter (\<lambda>(sid, sess). reserved sess) sessions)"

text \<open>
  \<^verbatim>\<open>add_reservation\<close>: \<^verbatim>\<open>select_session\<close> yields the session when the id is known and
  nothing otherwise, so an unknown id stores nothing.
\<close>

definition add_reservation :: "sessions \<Rightarrow> string \<Rightarrow> reservation_dict \<Rightarrow> sessions" where
  "add_reservation sessions sid dict1 =
     (case map_of sessions sid of
        None \<Rightarrow> sessions
      | Some sess \<Rightarrow> AList.update sid (sess\<lparr>reservation := Some dict1, reserved := True\<rparr>) sessions)"

section \<open>The session reaper\<close>

fun clean_sessions_loop :: "(string \<times> session) list \<Rightarrow> datetime \<Rightarrow> sessions \<Rightarrow> sessions" where
  "clean_sessions_loop [] now sessions = sessions"
| "clean_sessions_loop ((sid, sess) # rest) now sessions =
     clean_sessions_loop rest now
       (if session_timeout sess < now then AList.delete sid sessions else sessions)"

text \<open>\<open>clock\<close> is what \<^verbatim>\<open>datetime.now()\<close> returns when the timer fires.\<close>

definition clean_sessions_tmr :: "sessions \<Rightarrow> datetime \<Rightarrow> sessions" where
  "clean_sessions_tmr sessions clock =
     (let now = replace_microsecond_0 clock in clean_sessions_loop sessions now sessions)"

section \<open>The priority clock\<close>

text \<open>
  The loop of \<^verbatim>\<open>latest_reserve_time\<close> over a snapshot of the sessions. \<open>None\<close> is the
  early \<^verbatim>\<open>return datetime.now()\<close>; otherwise the loop ends with the count
  \<^verbatim>\<open>num_unreserved_hpv\<close>.
\<close>

fun count_unreserved_hpv :: "(string \<times> session) list \<Rightarrow> string \<Rightarrow> datetime \<Rightarrow> nat \<Rightarrow> nat option" where
  "count_unreserved_hpv [] ego_sid ego_arrival_time num_unreserved_hpv = Some num_unreserved_hpv"
| "count_unreserved_hpv ((oth_sid, oth_sess) # rest) ego_sid ego_arrival_time num_unreserved_hpv =
     (if oth_sid = ego_sid then count_unreserved_hpv rest ego_sid ego_arrival_time num_unreserved_hpv
      else
        let ego_before_other = total_seconds (arrival_time oth_sess - ego_arrival_time) in
        if reserved oth_sess then
          (if 0 < ego_before_other then None
           else count_unreserved_hpv rest ego_sid ego_arrival_time num_unreserved_hpv)
        else
          (if 0 < ego_before_other then
             count_unreserved_hpv rest ego_sid ego_arrival_time num_unreserved_hpv
           else if of_int TIME_HORIZON < - ego_before_other then
             count_unreserved_hpv rest ego_sid ego_arrival_time num_unreserved_hpv
           else count_unreserved_hpv rest ego_sid ego_arrival_time (num_unreserved_hpv + 1)))"

text \<open>
  \<^verbatim>\<open>latest_reserve_time\<close> of \<^verbatim>\<open>server.py\<close>; \<open>clock\<close> is what \<^verbatim>\<open>datetime.now()\<close> returns
  inside it.
\<close>

definition latest_reserve_time :: "sessions \<Rightarrow> string \<Rightarrow> datetime \<Rightarrow> datetime \<Rightarrow> datetime" where
  "latest_reserve_time sessions ego_sid ego_arrival_time clock =
     (case count_unreserved_hpv sessions ego_sid ego_arrival_time 0 of
        None \<Rightarrow> clock
      | Some num_unreserved_hpv \<Rightarrow>
          let time_needed = COMPUTE_TIME * (int num_unreserved_hpv + 1);
              time_needed = time_needed + COMPUTE_TIME
          in ego_arrival_time - timedelta_seconds time_needed)"

text \<open>
  \<^verbatim>\<open>latest_reserve_time\<close> of \<^verbatim>\<open>fake_server.py\<close>: the same loop (its session manager skips
  the ego id), without the extra compute slot.
\<close>

definition fake_latest_reserve_time :: "sessions \<Rightarrow> string \<Rightarrow> datetime \<Rightarrow> datetime \<Rightarrow> datetime" where
  "fake_latest_reserve_time sessions ego_sid ego_arrival_time clock =
     (case count_unreserved_hpv sessions ego_sid ego_arrival_time 0 of
        None \<Rightarrow> clock
      | Some num_unreserved_hpv \<Rightarrow>
          let time_needed = COMPUTE_TIME * (int num_unreserved_hpv + 1)
          in ego_arrival_time - timedelta_seconds time_needed)"

text \<open>
  The words of the specification for the priority clock: the contenders of a candidate
  are the other sessions that are unreserved, arrive no later than the candidate and at
  most \<^verbatim>\<open>TIME_HORIZON\<close> before it; a priority violation is another session that is
  reserved and arrives strictly later.
\<close>

definition contenders :: "sessions \<Rightarrow> string \<Rightarrow> datetime \<Rightarrow> nat" where
  "contenders sessions ego_sid ego_arrival_time =
     length (filter (\<lambda>(sid, sess). sid \<noteq> ego_sid \<and> \<not> reserved sess
                \<and> arrival_time sess \<le> ego_arrival_time
                \<and> ego_arrival_time - arrival_time sess \<le> timedelta_seconds TIME_HORIZON) sessions)"

definition priority_violation :: "sessions \<Rightarrow> string \<Rightarrow> datetime \<Rightarrow> bool" where
  "priority_violation sessions ego_sid ego_arrival_time =
     list_ex (\<lambda>(sid, sess). sid \<noteq> ego_sid \<and> reserved sess
                \<and> ego_arrival_time < arrival_time sess) sessions"

section \<open>The conflict resolver\<close>

text \<open>
  Python and NumPy slicing on the first axis. \<open>slice_index\<close> clips one bound of
  \<^verbatim>\<open>a[lo:hi]\<close> (negative bounds count from the end), \<open>get_rows\<close> reads \<^verbatim>\<open>a[lo:hi]\<close> and
  \<open>set_rows\<close> is the assignment \<^verbatim>\<open>a[lo:hi] = src\<close>: NumPy accepts a source with as many
  rows as the destination, stretches a source of one row, and raises \<^verbatim>\<open>ValueError\<close>
  otherwise. A missing bound is \<open>None\<close>.
\<close>

definition slice_index :: "nat \<Rightarrow> int \<Rightarrow> nat" where
  "slice_index n k = (if k < 0 then nat (max (int n + k) 0) else nat (min k (int n)))"

definition slice_start :: "nat \<Rightarrow> int option \<Rightarrow> nat" where
  "slice_start n lo = (case lo of None \<Rightarrow> 0 | Some k \<Rightarrow> slice_index n k)"

definition slice_stop :: "nat \<Rightarrow> int option \<Rightarrow> nat" where
  "slice_stop n hi = (case hi of None \<Rightarrow> n | Some k \<Rightarrow> slice_index n k)"

definition get_rows :: "tube \<Rightarrow> int option \<Rightarrow> int option \<Rightarrow> tube" where
  "get_rows a lo hi =
     (let start = slice_start (length a) lo; stop = slice_stop (length a) hi
      in take (stop - start) (drop start a))"

definition set_rows :: "tube \<Rightarrow> int option \<Rightarrow> int option \<Rightarrow> tube \<Rightarrow> exn + tube" where
  "set_rows a lo hi src =
     (let start = slice_start (length a) lo; stop = slice_stop (length a) hi; m = stop - start
      in if length src = m then Inr (take start a @ src @ drop (start + m) a)
         else if length src = 1 then Inr (take start a @ replicate m (hd src) @ drop (start + m) a)
         else Inl ValueError_broadcast)"

text \<open>
  The body of the loop of \<^verbatim>\<open>resolve_dangers\<close> for one reservation: \<open>Inr None\<close> is
  \<^verbatim>\<open>continue\<close>, \<open>Inr (Some danger)\<close> the spliced array, \<open>Inl\<close> an exception of the
  slice assignment.
\<close>

definition splice_danger :: "solver \<Rightarrow> datetime \<Rightarrow> reservation_dict \<Rightarrow> exn + tube option" where
  "splice_danger slv t_ref r =
     (let td_horizon = timedelta_seconds TIME_HORIZON;
          earliest_overlap = max t_ref (time_ref r);
          latest_overlap = min (t_ref + td_horizon) (time_ref r + td_horizon);
          overlap = total_seconds (latest_overlap - earliest_overlap)
      in if \<not> 0 < overlap then Inr None
         else
           let danger = replicate (timeline_len slv) (replicate (grid_size slv) 1) in
           map_sum id Some
            (if t_ref < earliest_overlap then
               let i_offset = total_seconds (earliest_overlap - t_ref);
                   j_offset = total_seconds (latest_overlap - time_ref r);
                   i = \<lceil>fdiv i_offset TIME_STEP\<rceil>;
                   j = \<lceil>fdiv j_offset TIME_STEP\<rceil>
               in set_rows danger (Some i) None (get_rows (pass4 (analysis r)) None (Some j))
             else
               let i_offset = total_seconds (earliest_overlap - time_ref r);
                   j_offset = total_seconds (latest_overlap - t_ref);
                   i = \<lceil>fdiv i_offset TIME_STEP\<rceil>;
                   j = \<lceil>fdiv j_offset TIME_STEP\<rceil>
               in set_rows danger None (Some j)
                    (get_rows (pass4 (analysis r)) (Some i) (Some (i + j)))))"

text \<open>
  The loop over \<^verbatim>\<open>get_reservations\<close>. Reading \<^verbatim>\<open>reservation['time_ref']\<close> from the empty
  dictionary raises \<^verbatim>\<open>KeyError\<close>. \<^verbatim>\<open>dangers\<close> is a dictionary again.
\<close>

fun resolve_dangers_loop ::
  "solver \<Rightarrow> datetime \<Rightarrow> (string \<times> reservation_dict option) list \<Rightarrow> (string \<times> tube) list
     \<Rightarrow> exn + (string \<times> tube) list" where
  "resolve_dangers_loop slv t_ref [] dangers = Inr dangers"
| "resolve_dangers_loop slv t_ref ((sid, None) # rest) dangers = Inl KeyError"
| "resolve_dangers_loop slv t_ref ((sid, Some r) # rest) dangers =
     (case splice_danger slv t_ref r of
        Inl e \<Rightarrow> Inl e
      | Inr None \<Rightarrow> resolve_dangers_loop slv t_ref rest dangers
      | Inr (Some danger) \<Rightarrow>
          resolve_dangers_loop slv t_ref rest (AList.update sid danger dangers))"

definition resolve_dangers :: "solver \<Rightarrow> sessions \<Rightarrow> datetime \<Rightarrow> exn + (string \<times> tube) list" where
  "resolve_dangers slv sessions t_ref =
     resolve_dangers_loop slv t_ref (get_reservations sessions) []"

text \<open>
  The overlap of the specification, \<open>min(ends) - max(starts)\<close>, between the candidate
  window that starts at \<open>t_ref\<close> and the window of a reservation, in microseconds.
\<close>

definition overlap :: "datetime \<Rightarrow> reservation_dict \<Rightarrow> timedelta" where
  "overlap t_ref r =
     min (t_ref + timedelta_seconds TIME_HORIZON) (time_ref r + timedelta_seconds TIME_HORIZON)
       - max t_ref (time_ref r)"

section \<open>The services\<close>



record notify_request =
  n_usr_id :: string
  n_arrival_time :: "datetime option"

record notify_response =
  n_transit_time :: int
  n_latest_reserve_time :: "datetime option"

record reserve_request =
  r_name :: string
  r_entry :: string
  r_exit :: string
  r_time_ref :: "datetime option"
  r_earliest_entry :: float
  r_latest_entry :: float

text \<open>
  The reason strings of \<^verbatim>\<open>reserve_srv\<close> and \<^verbatim>\<open>reserve\<close>, one constructor per format
  string, with the values the string interpolates. \<open>No_reason\<close> is the empty string of a
  successful reservation.
\<close>

datatype assertion =
    Invalid_window_offsetting float
  | Invalid_entry_window_requested
  | No_time_window_to_enter_region
  | Analysis_assertion string

datatype reason =
    Unknown
  | Malformed_ISO_time
  | Illegal_entry_region string
  | Illegal_exit_region string
  | Illegal_route string string
  | Reservation_late float
  | Reservation_Error assertion
  | No_reason

record reserve_response =
  success :: bool
  reason :: reason
  resp_time_ref :: "datetime option"
  resp_earliest_entry :: float
  resp_latest_entry :: float
  resp_earliest_exit :: float
  resp_latest_exit :: float

definition fromisoformat :: "datetime option \<Rightarrow> exn + datetime" where
  "fromisoformat str = (case str of None \<Rightarrow> Inl ValueError_isoformat | Some t \<Rightarrow> Inr t)"


text \<open>
  \<^verbatim>\<open>notify_srv\<close>. The \<^verbatim>\<open>for\<close> over \<^verbatim>\<open>select_session\<close> runs once for a known id and not at
  all for an unknown one, where its \<^verbatim>\<open>else\<close> branch answers \<open>-3000\<close>.
\<close>

definition notify_srv ::
  "sessions \<Rightarrow> notify_request \<Rightarrow> datetime \<Rightarrow> datetime \<Rightarrow> exn + sessions \<times> notify_response" where
  "notify_srv sessions req clock1 clock2 =
     (let resp = \<lparr>n_transit_time = 0, n_latest_reserve_time = None\<rparr> in
      case fromisoformat (n_arrival_time req) of
        Inl e \<Rightarrow> Inl e
      | Inr arrival_time' \<Rightarrow>
          let latest_reserve_time' =
                latest_reserve_time sessions (n_usr_id req) arrival_time' clock1;
              now = clock2
          in if latest_reserve_time' < now then Inr (sessions, resp\<lparr>n_transit_time := - 1000\<rparr>)
             else
               (case map_of sessions (n_usr_id req) of
                  Some sess \<Rightarrow>
                    if reserved sess then Inr (sessions, resp\<lparr>n_transit_time := - 2000\<rparr>)
                    else Inr
                      (AList.update (n_usr_id req)
                         (sess\<lparr>sess_latest_reserve_time := latest_reserve_time',
                               arrival_time := arrival_time',
                               session_timeout := arrival_time' + SESSION_TIMEOUT\<rparr>)
                         sessions,
                       resp\<lparr>n_latest_reserve_time := Some latest_reserve_time',
                            n_transit_time := TRANSIT_TIME\<rparr>)
                | None \<Rightarrow> Inr (sessions, resp\<lparr>n_transit_time := - 3000\<rparr>)))"

text \<open>
  \<^verbatim>\<open>reserve\<close>. The \<^verbatim>\<open>try\<close> block is the chain of tests below: a failed \<^verbatim>\<open>assert\<close> (or an
  \<^verbatim>\<open>AssertionError\<close> of the analysis) sets the reason and stores nothing, any other
  exception leaves the handler. Creating the debugging directory is not modelled.
\<close>

definition reserve ::
  "solver \<Rightarrow> sessions \<Rightarrow> string \<Rightarrow> reserve_request \<Rightarrow> reserve_response
     \<Rightarrow> exn + sessions \<times> reserve_response" where
  "reserve slv sessions sid req resp =
     (case r_time_ref req of
        None \<Rightarrow> Inr (sessions, resp\<lparr>reason := Malformed_ISO_time\<rparr>)
      | Some time_ref0 \<Rightarrow>
          let earliest_entry0 = round1 (max (r_earliest_entry req) 0);
              latest_entry0 = round1 (min (r_latest_entry req) (of_int TIME_HORIZON));
              offset = round1 (fadd (of_int \<lfloor>earliest_entry0\<rfloor>) (fmod earliest_entry0 TIME_STEP));
              time_ref1 = time_ref0 + timedelta_seconds_float offset;
              earliest_entry1 = fsub earliest_entry0 offset;
              latest_entry1 = fsub latest_entry0 offset
          in if \<not> (0 \<le> earliest_entry1 \<and> earliest_entry1 \<le> latest_entry1
                    \<and> latest_entry1 \<le> of_int TIME_HORIZON)
             then Inr (sessions,
                       resp\<lparr>reason := Reservation_Error (Invalid_window_offsetting offset)\<rparr>)
             else
               let max_window_entry =
                     round1 (min (fsub latest_entry1 earliest_entry1) (of_int MAX_WINDOW_ENTRY))
               in if max_window_entry = 0
                  then Inr (sessions,
                            resp\<lparr>reason := Reservation_Error Invalid_entry_window_requested\<rparr>)
                  else
                    (case resolve_dangers slv sessions time_ref1 of
                       Inl e \<Rightarrow> Inl e
                     | Inr dangers \<Rightarrow>
                         let dangers' =
                               map snd (filter (\<lambda>(id', danger). take 5 id' \<noteq> take 5 sid) dangers)
                         in (case run_analysis slv max_window_entry (r_entry req) (r_exit req)
                                   dangers' of
                              Inl msg \<Rightarrow>
                                Inr (sessions,
                                     resp\<lparr>reason := Reservation_Error (Analysis_assertion msg)\<rparr>)
                            | Inr result \<Rightarrow>
                                let earliest_entry2 = max earliest_entry1 (res_earliest_entry result);
                                    latest_entry2 = min latest_entry1 (res_latest_entry result);
                                    earliest_exit' = res_earliest_exit result;
                                    latest_exit' = res_latest_exit result
                                in if \<not> 0 < fsub latest_entry2 earliest_entry2
                                   then Inr (sessions,
                                             resp\<lparr>reason :=
                                               Reservation_Error No_time_window_to_enter_region\<rparr>)
                                   else Inr
                                     (add_reservation sessions sid
                                        \<lparr>name = r_name req,
                                         time_ref = time_ref1,
                                         entry = r_entry req,
                                         exit = r_exit req,
                                         earliest_entry = earliest_entry2,
                                         latest_entry = latest_entry2,
                                         earliest_exit = earliest_exit',
                                         latest_exit = latest_exit',
                                         analysis = result\<rparr>,
                                      resp\<lparr>resp_time_ref := Some time_ref1,
                                           resp_earliest_entry := earliest_entry2,
                                           resp_latest_entry := latest_entry2,
                                           resp_earliest_exit := earliest_exit',
                                           resp_latest_exit := latest_exit',
                                           success := True,
                                           reason := No_reason\<rparr>))))"

text \<open>
  \<^verbatim>\<open>reserve_srv\<close>. Its test \<^verbatim>\<open>if req.name not in self.sessions\<close> only writes a log line and
  falls through to the next test, so it has no branch here.
\<close>

definition reserve_srv ::
  "solver \<Rightarrow> sessions \<Rightarrow> reserve_request \<Rightarrow> datetime \<Rightarrow> datetime
     \<Rightarrow> exn + sessions \<times> reserve_response" where
  "reserve_srv slv sessions req clock1 clock2 =
     (let resp = \<lparr>success = False, reason = Unknown, resp_time_ref = None,
                   resp_earliest_entry = 0, resp_latest_entry = 0,
                   resp_earliest_exit = 0, resp_latest_exit = 0\<rparr>
      in case r_time_ref req of
           None \<Rightarrow> Inr (sessions, resp\<lparr>reason := Malformed_ISO_time\<rparr>)
         | Some time_ref0 \<Rightarrow>
             if r_entry req \<notin> set ENTRY_LOCATIONS
             then Inr (sessions, resp\<lparr>reason := Illegal_entry_region (r_entry req)\<rparr>)
             else if r_exit req \<notin> set EXIT_LOCATIONS
             then Inr (sessions, resp\<lparr>reason := Illegal_exit_region (r_exit req)\<rparr>)
             else if (r_entry req, r_exit req) \<notin> set PERMITTED_ROUTES
             then Inr (sessions, resp\<lparr>reason := Illegal_route (r_entry req) (r_exit req)\<rparr>)
             else
               let latest_reserve_time' =
                     latest_reserve_time sessions (r_name req) time_ref0 clock1;
                   now = clock2
               in if latest_reserve_time' < now
                  then Inr (sessions,
                            resp\<lparr>reason :=
                              Reservation_late (total_seconds (now - latest_reserve_time'))\<rparr>)
                  else reserve slv sessions (r_name req) req resp)"

section \<open>The server as a machine\<close>





section \<open>Named parts of the handlers and of the specification\<close>

text \<open>
  The local variables of \<^verbatim>\<open>reserve\<close>, as functions of the request, to state what it
  computes: the clamped and rounded entry bounds, the offset, the bounds after the offset,
  the assertion on them, \<^verbatim>\<open>max_window_entry\<close>, the dangers of the other agents, and the
  dictionary and the response of a granted reservation.
\<close>

definition clamped_earliest_entry :: "reserve_request \<Rightarrow> float" where
  "clamped_earliest_entry req = round1 (max (r_earliest_entry req) 0)"

definition clamped_latest_entry :: "reserve_request \<Rightarrow> float" where
  "clamped_latest_entry req = round1 (min (r_latest_entry req) (of_int TIME_HORIZON))"

definition alignment_offset :: "reserve_request \<Rightarrow> float" where
  "alignment_offset req =
     round1 (fadd (of_int \<lfloor>clamped_earliest_entry req\<rfloor>)
                  (fmod (clamped_earliest_entry req) TIME_STEP))"

definition aligned_earliest_entry :: "reserve_request \<Rightarrow> float" where
  "aligned_earliest_entry req = fsub (clamped_earliest_entry req) (alignment_offset req)"

definition aligned_latest_entry :: "reserve_request \<Rightarrow> float" where
  "aligned_latest_entry req = fsub (clamped_latest_entry req) (alignment_offset req)"

definition aligned_window_ok :: "reserve_request \<Rightarrow> bool" where
  "aligned_window_ok req \<longleftrightarrow>
     0 \<le> aligned_earliest_entry req \<and> aligned_earliest_entry req \<le> aligned_latest_entry req
       \<and> aligned_latest_entry req \<le> of_int TIME_HORIZON"

definition granted_reservation ::
  "reserve_request \<Rightarrow> datetime \<Rightarrow> analysis_result \<Rightarrow> reservation_dict" where
  "granted_reservation req time_ref0 result =
     \<lparr>name = r_name req,
      time_ref = time_ref0 + timedelta_seconds_float (alignment_offset req),
      entry = r_entry req,
      exit = r_exit req,
      earliest_entry = max (aligned_earliest_entry req) (res_earliest_entry result),
      latest_entry = min (aligned_latest_entry req) (res_latest_entry result),
      earliest_exit = res_earliest_exit result,
      latest_exit = res_latest_exit result,
      analysis = result\<rparr>"

definition granted_response :: "reserve_response \<Rightarrow> reservation_dict \<Rightarrow> reserve_response" where
  "granted_response resp r =
     resp\<lparr>resp_time_ref := Some (time_ref r),
          resp_earliest_entry := earliest_entry r,
          resp_latest_entry := latest_entry r,
          resp_earliest_exit := earliest_exit r,
          resp_latest_exit := latest_exit r,
          success := True,
          reason := No_reason\<rparr>"

definition max_window_entry_of :: "reserve_request \<Rightarrow> float" where
  "max_window_entry_of req =
     round1 (min (fsub (aligned_latest_entry req) (aligned_earliest_entry req))
                 (of_int MAX_WINDOW_ENTRY))"

definition other_dangers :: "string \<Rightarrow> (string \<times> tube) list \<Rightarrow> tube list" where
  "other_dangers sid dangers =
     map snd (filter (\<lambda>(id', danger). take 5 id' \<noteq> take 5 sid) dangers)"

text \<open>
  The response as \<^verbatim>\<open>reserve_srv\<close> initialises it, and the tests it makes before it calls
  \<^verbatim>\<open>reserve\<close>.
\<close>

definition initial_reserve_response :: reserve_response where
  "initial_reserve_response =
     \<lparr>success = False, reason = Unknown, resp_time_ref = None,
      resp_earliest_entry = 0, resp_latest_entry = 0,
      resp_earliest_exit = 0, resp_latest_exit = 0\<rparr>"

definition passes_route_and_deadline ::
  "sessions \<Rightarrow> reserve_request \<Rightarrow> datetime \<Rightarrow> datetime \<Rightarrow> datetime \<Rightarrow> bool" where
  "passes_route_and_deadline sessions req time_ref0 clock1 clock2 \<longleftrightarrow>
     r_time_ref req = Some time_ref0 \<and> r_entry req \<in> set ENTRY_LOCATIONS
       \<and> r_exit req \<in> set EXIT_LOCATIONS \<and> (r_entry req, r_exit req) \<in> set PERMITTED_ROUTES
       \<and> \<not> latest_reserve_time sessions (r_name req) time_ref0 clock1 < clock2"






section \<open>Example states\<close>

text \<open>Two sessions that differ in their timeout only, for the reaper.\<close>

definition c8_session :: session where
  "c8_session = \<lparr>sess_latest_reserve_time = 10000000, arrival_time = 30000000,
     session_timeout = 60000000, reserved = False, reservation = None\<rparr>"

definition c8_session_b :: session where
  "c8_session_b = \<lparr>sess_latest_reserve_time = 10000000, arrival_time = 30000000,
     session_timeout = 59000000, reserved = False, reservation = None\<rparr>"

text \<open>An unreserved session that arrives five seconds before a candidate at \<open>60\<close> seconds.\<close>

definition c2_contender :: session where
  "c2_contender = \<lparr>sess_latest_reserve_time = 35000000, arrival_time = 55000000,
     session_timeout = 85000000, reserved = False, reservation = None\<rparr>"

text \<open>
  A solver with a timeline of 76 points (\<open>0\<close> to \<open>15\<close> seconds in steps of \<open>0.2\<close>) and
  a grid of one cell, whose analysis always returns the same window and tube; a
  reservation made with it at \<open>60\<close> seconds, and sessions that hold it.
\<close>

definition ex_tube :: tube where
  "ex_tube = replicate 76 [0]"

definition ex_result :: analysis_result where
  "ex_result = \<lparr>res_earliest_entry = 0, res_latest_entry = 2,
     res_earliest_exit = 3, res_latest_exit = 5, pass4 = ex_tube\<rparr>"

definition ex_solver :: solver where
  "ex_solver = \<lparr>timeline_len = 76, grid_size = 1,
     run_analysis = (\<lambda>max_window_entry en ex dangers. Inr ex_result)\<rparr>"

definition ex_reservation :: reservation_dict where
  "ex_reservation = \<lparr>name = ''a'', time_ref = 60000000, entry = ''left'', exit = ''right'',
     earliest_entry = 0, latest_entry = 2, earliest_exit = 3, latest_exit = 5,
     analysis = ex_result\<rparr>"

definition ex_session :: session where
  "ex_session = \<lparr>sess_latest_reserve_time = 40000000, arrival_time = 60000000,
     session_timeout = 90000000, reserved = False, reservation = None\<rparr>"

definition ex_reserved :: session where
  "ex_reserved = ex_session\<lparr>reserved := True, reservation := Some ex_reservation\<rparr>"

definition ex_reserved_later :: session where
  "ex_reserved_later =
     ex_session\<lparr>reserved := True, reservation := Some (ex_reservation\<lparr>time_ref := 79000000\<rparr>)\<rparr>"










text \<open>
  A session whose timeout lies half a millisecond before a whole second.
\<close>

definition c8_session_c :: session where
  "c8_session_c = \<lparr>sess_latest_reserve_time = 9999500, arrival_time = 29999500,
     session_timeout = 59999500, reserved = False, reservation = None\<rparr>"




definition c7_request_from_one :: reserve_request where
  "c7_request_from_one = \<lparr>r_name = ''a'', r_entry = ''left'', r_exit = ''right'',
     r_time_ref = Some 60000000, r_earliest_entry = 1, r_latest_entry = 3\<rparr>"


section \<open>Rounding to a double keeps the order\<close>

lemma pow2_powi: "pow2 k = 2 powi k"
  by (simp add: pow2_def power_int_def field_simps)

lemma pow2_pos: "0 < pow2 k"
  by (simp add: pow2_powi)

lemma pow2_add: "pow2 (a + b) = pow2 a * pow2 b"
  by (simp add: pow2_powi power_int_add)

lemma pow2_mono: "a \<le> b \<Longrightarrow> pow2 a \<le> pow2 b"
  by (simp add: pow2_powi power_int_increasing)

lemma pow2_less_cancel: "pow2 a < pow2 b \<Longrightarrow> a < b"
  using pow2_mono [of b a] by (cases "a < b") auto

lemma round_half_even_floor: "\<lfloor>z\<rfloor> \<le> round_half_even z" "round_half_even z \<le> \<lfloor>z\<rfloor> + 1"
  unfolding round_half_even_def Let_def by auto

lemma round_half_even_ge:
  assumes "of_int n \<le> z"
  shows "n \<le> round_half_even z"
proof -
  from assms have "n \<le> \<lfloor>z\<rfloor>" by (simp add: le_floor_iff)
  with round_half_even_floor(1) [of z] show ?thesis by linarith
qed

lemma round_half_even_of_int: "round_half_even (of_int n) = n"
  unfolding round_half_even_def Let_def by auto

lemma round_half_even_le:
  assumes "z \<le> of_int n"
  shows "round_half_even z \<le> n"
proof (cases "\<lfloor>z\<rfloor> < n")
  case True
  with round_half_even_floor(2) [of z] show ?thesis by linarith
next
  case False
  with assms have "z = of_int n"
    by (metis floor_less_iff not_less order_antisym)
  then show ?thesis by (simp add: round_half_even_of_int)
qed

lemma round_half_even_mono:
  assumes "x \<le> y"
  shows "round_half_even x \<le> round_half_even y"
proof (cases "\<lfloor>x\<rfloor> < \<lfloor>y\<rfloor>")
  case True
  with round_half_even_floor(2) [of x] round_half_even_floor(1) [of y] show ?thesis
    by linarith
next
  case False
  with assms have eq: "\<lfloor>x\<rfloor> = \<lfloor>y\<rfloor>"
    by (meson floor_mono le_less)
  with assms have "x - of_int \<lfloor>y\<rfloor> \<le> y - of_int \<lfloor>y\<rfloor>" by simp
  then show ?thesis
    unfolding round_half_even_def Let_def eq by auto
qed

lemma round_half_even_minus: "round_half_even (- z) = - round_half_even z"
proof (cases "z = of_int \<lfloor>z\<rfloor>")
  case True
  then have "- z = of_int (- \<lfloor>z\<rfloor>)" by simp
  then have "round_half_even (- z) = - \<lfloor>z\<rfloor>"
    by (simp only: round_half_even_of_int)
  moreover from True have "round_half_even z = \<lfloor>z\<rfloor>"
    by (metis round_half_even_of_int)
  ultimately show ?thesis by simp
next
  case False
  define f where "f = \<lfloor>z\<rfloor>"
  define d where "d = z - of_int f"
  from False have fl: "\<lfloor>- z\<rfloor> = - f - 1"
    by (simp add: floor_minus ceiling_altdef f_def)
  have d: "0 < d" "d < 1"
    using False unfolding d_def f_def by linarith+
  have d': "- z - of_int (- f - 1) = 1 - d" by (simp add: d_def)
  have l: "round_half_even (- z) =
      (if 1 - d < 1 / 2 then - f - 1 else if 1 / 2 < 1 - d then - f else if even (- f - 1) then - f - 1 else - f)"
    unfolding round_half_even_def Let_def fl d' by simp
  have r: "round_half_even z =
      (if d < 1 / 2 then f else if 1 / 2 < d then f + 1 else if even f then f else f + 1)"
    unfolding round_half_even_def Let_def f_def [symmetric] d_def [symmetric] by simp
  consider "d < 1 / 2" | "d = 1 / 2" | "1 / 2 < d" by linarith
  then show ?thesis
  proof cases
    case 1
    then show ?thesis unfolding l r by simp
  next
    case 2
    then show ?thesis unfolding l r by simp
  next
    case 3
    then show ?thesis unfolding l r by simp
  qed
qed

lemma bitlen_ge_1: "0 < (n::int) \<Longrightarrow> 1 \<le> bitlen n"
  by (metis bitlen_eq_zero_iff bitlen_nonneg int_one_le_iff_zero_less le_less not_less)

lemma of_int_Suc_le_power: "(n::int) < 2 ^ k \<Longrightarrow> (of_int (n + 1) :: rat) \<le> of_int (2 ^ k)"
  unfolding of_int_le_iff by simp

lemma power_le_of_int: "(2::int) ^ k \<le> n \<Longrightarrow> (2::rat) ^ k \<le> of_int n"
  by (metis of_int_le_iff of_int_numeral of_int_power)

lemma float_exponent_ge1:
  assumes "1 \<le> x"
  shows "pow2 (float_exponent x) \<le> x \<and> x < pow2 (float_exponent x + 1)"
proof -
  define n where "n = \<lfloor>x\<rfloor>"
  from assms have n: "0 < n" by (simp add: n_def)
  from bitlen_bounds [OF n] have b: "2 ^ nat (bitlen n - 1) \<le> n" "n < 2 ^ nat (bitlen n)"
    by simp_all
  from n have b1: "1 \<le> bitlen n" by (rule bitlen_ge_1)
  have e: "float_exponent x = bitlen n - 1"
    using assms by (simp add: float_exponent_def n_def)
  have "(2::rat) ^ nat (bitlen n - 1) \<le> of_int n"
    using b(1) by (rule power_le_of_int)
  also have "\<dots> \<le> x" unfolding n_def by linarith
  finally have lo: "pow2 (float_exponent x) \<le> x"
    using b1 by (simp add: e pow2_def)
  have "x < of_int (n + 1)" unfolding n_def by linarith
  also have "(of_int (n + 1) :: rat) \<le> of_int (2 ^ nat (bitlen n))"
    using b(2) by (rule of_int_Suc_le_power)
  finally have "x < 2 ^ nat (bitlen n)" by simp
  then have hi: "x < pow2 (float_exponent x + 1)"
    using b1 by (simp add: e pow2_def)
  from lo hi show ?thesis ..
qed


lemma float_exponent_lt1:
  assumes "0 < x" "x < 1"
  shows "pow2 (float_exponent x) \<le> x \<and> x < pow2 (float_exponent x + 1)"
proof -
  define m where "m = \<lceil>1 / x\<rceil> - 1"
  from assms have "1 < 1 / x" by (simp add: field_simps)
  then have m: "0 < m" unfolding m_def by linarith
  from bitlen_bounds [OF m] have b: "2 ^ nat (bitlen m - 1) \<le> m" "m < 2 ^ nat (bitlen m)"
    by simp_all
  from m have b1: "1 \<le> bitlen m" by (rule bitlen_ge_1)
  have e: "float_exponent x = - bitlen m"
    using assms by (simp add: float_exponent_def m_def)
  have "1 / x \<le> of_int (m + 1)" unfolding m_def by linarith
  also have "(of_int (m + 1) :: rat) \<le> of_int (2 ^ nat (bitlen m))"
    using b(2) by (rule of_int_Suc_le_power)
  finally have "1 / x \<le> 2 ^ nat (bitlen m)" by simp
  with assms(1) have "1 / 2 ^ nat (bitlen m) \<le> x"
    by (simp add: field_simps)
  then have lo: "pow2 (float_exponent x) \<le> x"
    using b1 by (simp add: e pow2_def)
  have "(2::rat) ^ nat (bitlen m - 1) \<le> of_int m"
    using b(1) by (rule power_le_of_int)
  also have "of_int m < 1 / x" unfolding m_def by linarith
  finally have "2 ^ nat (bitlen m - 1) < 1 / x" .
  with assms(1) have "x < 1 / 2 ^ nat (bitlen m - 1)"
    by (simp add: field_simps)
  moreover have "pow2 (- bitlen m + 1) = 1 / 2 ^ nat (bitlen m - 1)"
    using b1 by (simp add: pow2_def)
  ultimately have hi: "x < pow2 (float_exponent x + 1)"
    by (simp add: e)
  from lo hi show ?thesis ..
qed

lemma float_exponent_bounds:
  assumes "0 < x"
  shows "pow2 (float_exponent x) \<le> x" and "x < pow2 (float_exponent x + 1)"
  using float_exponent_ge1 [of x] float_exponent_lt1 [of x] assms
  by (cases "1 \<le> x"; simp)+

lemma rnd_nonpos: "x \<le> 0 \<Longrightarrow> rnd x \<le> 0"
proof -
  assume x: "x \<le> 0"
  have "round_half_even (x / u) \<le> 0" if "0 < u" for u
    using that x by (intro round_half_even_le) (simp add: divide_nonpos_pos)
  then show ?thesis
    by (simp add: rnd_def Let_def mult_le_0_iff pow2_pos less_imp_le)
qed

lemma rnd_nonneg: "0 \<le> x \<Longrightarrow> 0 \<le> rnd x"
proof -
  assume x: "0 \<le> x"
  have "0 \<le> round_half_even (x / u)" if "0 < u" for u
    using that x by (intro round_half_even_ge) simp
  then show ?thesis
    by (simp add: rnd_def Let_def zero_le_mult_iff pow2_pos less_imp_le)
qed

lemma rnd_minus: "rnd (- x) = - rnd x"
  by (simp add: rnd_def Let_def round_half_even_minus)

lemma pow2_52: "pow2 e / pow2 (e - 52) = of_int (2 ^ 52)" "pow2 (e + 1) / pow2 (e - 52) = of_int (2 ^ 53)"
  using pow2_add [of "e - 52" 52] pow2_add [of "e - 52" 53] pow2_pos [of "e - 52"]
  by (simp_all add: pow2_def field_simps)

lemma rnd_pos_bounds:
  assumes "0 < x"
  shows "pow2 (float_exponent x) \<le> rnd x" and "rnd x \<le> pow2 (float_exponent x + 1)"
proof -
  define e where "e = float_exponent x"
  define u where "u = pow2 (e - 52)"
  have u: "0 < u" by (simp add: u_def pow2_pos)
  from assms have r: "rnd x = of_int (round_half_even (x / u)) * u"
    by (simp add: rnd_def Let_def u_def e_def)
  from float_exponent_bounds [OF assms] have b: "pow2 e \<le> x" "x < pow2 (e + 1)"
    by (simp_all add: e_def)
  from b(1) u have "pow2 e / u \<le> x / u" by (simp add: divide_right_mono)
  then have "of_int (2 ^ 52) \<le> x / u" by (simp only: u_def pow2_52)
  then have "2 ^ 52 \<le> round_half_even (x / u)" by (rule round_half_even_ge)
  then have "(of_int (2 ^ 52) :: rat) \<le> of_int (round_half_even (x / u))"
    by (simp only: of_int_le_iff)
  with u have "of_int (2 ^ 52) * u \<le> rnd x"
    unfolding r by (simp only: mult_le_cancel_right_pos)
  moreover have "of_int (2 ^ 52) * u = pow2 e"
    using pow2_52(1) [of e] u by (simp add: u_def field_simps)
  ultimately show "pow2 (float_exponent x) \<le> rnd x" by (simp add: e_def)
  from b(2) u have "x / u \<le> pow2 (e + 1) / u" by (simp add: divide_right_mono)
  then have "x / u \<le> of_int (2 ^ 53)" by (simp only: u_def pow2_52)
  then have "round_half_even (x / u) \<le> 2 ^ 53" by (rule round_half_even_le)
  then have "(of_int (round_half_even (x / u)) :: rat) \<le> of_int (2 ^ 53)"
    by (simp only: of_int_le_iff)
  with u have "rnd x \<le> of_int (2 ^ 53) * u"
    unfolding r by (simp only: mult_le_cancel_right_pos)
  moreover have "of_int (2 ^ 53) * u = pow2 (e + 1)"
    using pow2_52(2) [of e] u by (simp add: u_def field_simps)
  ultimately show "rnd x \<le> pow2 (float_exponent x + 1)" by (simp add: e_def)
qed

lemma rnd_mono_pos:
  assumes "0 < x" "x \<le> y"
  shows "rnd x \<le> rnd y"
proof -
  from assms have y: "0 < y" by simp
  note bx = float_exponent_bounds [OF assms(1)] and by' = float_exponent_bounds [OF y]
  from bx(1) assms(2) by'(2) have "pow2 (float_exponent x) < pow2 (float_exponent y + 1)"
    by linarith
  then have le: "float_exponent x \<le> float_exponent y"
    using pow2_less_cancel by fastforce
  show ?thesis
  proof (cases "float_exponent x = float_exponent y")
    case True
    define u where "u = pow2 (float_exponent y - 52)"
    have u: "0 < u" by (simp add: u_def pow2_pos)
    from assms(2) u have "x / u \<le> y / u" by (simp add: divide_right_mono)
    then have "round_half_even (x / u) \<le> round_half_even (y / u)"
      by (rule round_half_even_mono)
    then have "(of_int (round_half_even (x / u)) :: rat) * u \<le> of_int (round_half_even (y / u)) * u"
      using u by (simp only: mult_le_cancel_right_pos of_int_le_iff)
    then show ?thesis
      using assms(1) y True by (simp add: rnd_def Let_def u_def)
  next
    case False
    with le have "float_exponent x + 1 \<le> float_exponent y" by simp
    then have "pow2 (float_exponent x + 1) \<le> pow2 (float_exponent y)" by (rule pow2_mono)
    with rnd_pos_bounds(2) [OF assms(1)] rnd_pos_bounds(1) [OF y] show ?thesis
      by linarith
  qed
qed

lemma rnd_mono:
  assumes "x \<le> y"
  shows "rnd x \<le> rnd y"
proof -
  consider "0 < x" | "x \<le> 0" "0 \<le> y" | "y < 0" by linarith
  then show ?thesis
  proof cases
    case 1
    then show ?thesis using assms by (rule rnd_mono_pos)
  next
    case 2
    with rnd_nonpos [of x] rnd_nonneg [of y] show ?thesis by linarith
  next
    case 3
    with assms have "0 < - y" "- y \<le> - x" by simp_all
    then have "rnd (- y) \<le> rnd (- x)" by (rule rnd_mono_pos)
    then show ?thesis by (simp add: rnd_minus)
  qed
qed


section \<open>The deadline of the priority clock\<close>

lemma rnd_consts:
  "0 < rnd (1 / 1000000)" "rnd 15 = 15" "15 < rnd (15000001 / 1000000)"
  by code_simp+

lemma total_seconds_pos_iff: "0 < total_seconds d \<longleftrightarrow> 0 < d"
proof
  assume "0 < total_seconds d"
  with rnd_nonpos [of "of_int d / 1000000"] show "0 < d"
    by (cases "0 < d") (auto simp: total_seconds_def divide_nonpos_pos)
next
  assume "0 < d"
  then have "1 / 1000000 \<le> (of_int d :: rat) / 1000000" by simp
  then have "rnd (1 / 1000000) \<le> total_seconds d"
    unfolding total_seconds_def by (rule rnd_mono)
  with rnd_consts(1) show "0 < total_seconds d" by linarith
qed

lemma total_seconds_horizon_iff:
  "of_int TIME_HORIZON < - total_seconds d \<longleftrightarrow> timedelta_seconds TIME_HORIZON < - d"
proof -
  have m: "- total_seconds d = rnd (of_int (- d) / 1000000)"
    by (simp add: total_seconds_def rnd_minus [symmetric])
  show ?thesis
  proof (cases "15000000 < - d")
    case True
    then have "15000001 \<le> - d" by simp
    then have "(of_int 15000001 :: rat) \<le> of_int (- d)" by (simp only: of_int_le_iff)
    then have "15000001 / 1000000 \<le> (of_int (- d) :: rat) / 1000000" by simp
    then have "rnd (15000001 / 1000000) \<le> rnd (of_int (- d) / 1000000)" by (rule rnd_mono)
    with rnd_consts(3) True show ?thesis
      by (simp add: m TIME_HORIZON_def timedelta_seconds_def)
  next
    case False
    then have "- d \<le> 15000000" by simp
    then have "(of_int (- d) :: rat) \<le> of_int 15000000" by (simp only: of_int_le_iff)
    then have "(of_int (- d) :: rat) / 1000000 \<le> 15" by simp
    then have "rnd (of_int (- d) / 1000000) \<le> rnd 15" by (rule rnd_mono)
    with rnd_consts(2) False show ?thesis
      by (simp add: m TIME_HORIZON_def timedelta_seconds_def)
  qed
qed

lemma count_unreserved_hpv_contenders:
  assumes "\<not> priority_violation sessions ego_sid ego_arrival_time"
  shows "count_unreserved_hpv sessions ego_sid ego_arrival_time n =
           Some (n + contenders sessions ego_sid ego_arrival_time)"
  using assms
proof (induction sessions arbitrary: n)
  case Nil
  show ?case by (simp add: contenders_def)
next
  case (Cons p sessions)
  obtain oth_sid oth_sess where p: "p = (oth_sid, oth_sess)" by (cases p)
  from Cons.prems have rest: "\<not> priority_violation sessions ego_sid ego_arrival_time"
    and here: "oth_sid \<noteq> ego_sid \<Longrightarrow> reserved oth_sess \<Longrightarrow> \<not> ego_arrival_time < arrival_time oth_sess"
    by (auto simp: priority_violation_def p)
  have c: "contenders ((oth_sid, oth_sess) # sessions) ego_sid ego_arrival_time =
      (if oth_sid \<noteq> ego_sid \<and> \<not> reserved oth_sess \<and> arrival_time oth_sess \<le> ego_arrival_time
          \<and> ego_arrival_time - arrival_time oth_sess \<le> timedelta_seconds TIME_HORIZON
       then 1 else 0) + contenders sessions ego_sid ego_arrival_time"
    by (simp add: contenders_def)
  show ?case
    unfolding p c using here
    by (auto simp add: Cons.IH [OF rest] Let_def total_seconds_pos_iff total_seconds_horizon_iff)
qed

text \<open>
  Claim C2, as \<^verbatim>\<open>server.py\<close> has it. When no other session is both reserved and later
  than the candidate, \<^verbatim>\<open>latest_reserve_time\<close> is the candidate's arrival time minus
  \<^verbatim>\<open>COMPUTE_TIME\<close> for every contender, once for the candidate itself and once more for
  the line \<^verbatim>\<open>time_needed += self.COMPUTE_TIME\<close> ("heuristic extra time").
\<close>

theorem latest_reserve_time_two_extra_slots:
  assumes "\<not> priority_violation sessions ego_sid ego_arrival_time"
  shows "latest_reserve_time sessions ego_sid ego_arrival_time clock =
     ego_arrival_time
       - timedelta_seconds (COMPUTE_TIME * (int (contenders sessions ego_sid ego_arrival_time) + 2))"
  by (simp add: latest_reserve_time_def count_unreserved_hpv_contenders [OF assms] Let_def
        algebra_simps)

text \<open>The variant in \<^verbatim>\<open>fake_server.py\<close> has no extra slot.\<close>

lemma fake_latest_reserve_time_one_extra_slot:
  assumes "\<not> priority_violation sessions ego_sid ego_arrival_time"
  shows "fake_latest_reserve_time sessions ego_sid ego_arrival_time clock =
     ego_arrival_time
       - timedelta_seconds (COMPUTE_TIME * (int (contenders sessions ego_sid ego_arrival_time) + 1))"
  by (simp add: fake_latest_reserve_time_def count_unreserved_hpv_contenders [OF assms] Let_def)

text \<open>The theorem with one contender: \<open>60 - 10 * (1 + 2) = 30\<close> seconds.\<close>

theorem latest_reserve_time_two_extra_slots_witness:
  "\<not> priority_violation [(''b'', c2_contender)] ''a'' 60000000 \<and>
   contenders [(''b'', c2_contender)] ''a'' 60000000 = 1 \<and>
   latest_reserve_time [(''b'', c2_contender)] ''a'' 60000000 0 = 30000000"
  using latest_reserve_time_two_extra_slots [of "[(''b'', c2_contender)]" "''a''" 60000000 0]
  by (simp add: priority_violation_def contenders_def c2_contender_def timedelta_seconds_def
        COMPUTE_TIME_def TIME_HORIZON_def)

text \<open>
  Claim C2 as stated, with \<open>c + 1\<close> slots, fails in \<^verbatim>\<open>server.py\<close> at the same input.
\<close>

theorem latest_reserve_time_not_one_extra_slot:
  "\<not> priority_violation [(''b'', c2_contender)] ''a'' 60000000 \<and>
   latest_reserve_time [(''b'', c2_contender)] ''a'' 60000000 0 \<noteq>
     60000000 - timedelta_seconds (COMPUTE_TIME * (int (contenders [(''b'', c2_contender)] ''a'' 60000000) + 1))"
  by code_simp


section \<open>The session reaper deletes what is strictly older than the truncated clock\<close>

lemma clean_sessions_loop_filter:
  "clean_sessions_loop xs now acc =
     filter (\<lambda>p. fst p \<notin> fst ` {q \<in> set xs. session_timeout (snd q) < now}) acc"
proof (induction xs arbitrary: acc)
  case Nil
  show ?case by simp
next
  case (Cons x xs)
  obtain sid sess where x: "x = (sid, sess)" by (cases x)
  show ?case
    unfolding x by (force simp: Cons.IH AList.delete_eq intro!: filter_cong)
qed

text \<open>With distinct keys the loop of the reaper is a filter on the store.\<close>

lemma clean_sessions_tmr_filter:
  assumes "distinct (map fst sessions)"
  shows "clean_sessions_tmr sessions clock =
     filter (\<lambda>(sid, sess). \<not> session_timeout sess < replace_microsecond_0 clock) sessions"
proof -
  have "fst p \<in> fst ` {q \<in> set sessions. session_timeout (snd q) < now}
          \<longleftrightarrow> session_timeout (snd p) < now" if "p \<in> set sessions" for p now
  proof
    assume "fst p \<in> fst ` {q \<in> set sessions. session_timeout (snd q) < now}"
    then obtain q where q: "q \<in> set sessions" "session_timeout (snd q) < now" "fst q = fst p"
      by auto
    from assms q(1) that q(3) have "q = p"
      by (metis eq_key_imp_eq_value prod.collapse)
    with q(2) show "session_timeout (snd p) < now" by simp
  next
    assume "session_timeout (snd p) < now"
    with that show "fst p \<in> fst ` {q \<in> set sessions. session_timeout (snd q) < now}" by auto
  qed
  then have "filter (\<lambda>p. fst p \<notin> fst ` {q \<in> set sessions. session_timeout (snd q) < now}) sessions
       = filter (\<lambda>(sid, sess). \<not> session_timeout sess < now) sessions" for now
    by (intro filter_cong) (simp_all add: case_prod_unfold)
  then show ?thesis
    by (simp add: clean_sessions_tmr_def clean_sessions_loop_filter)
qed

text \<open>
  One millisecond after an instant, the clock truncated to the second has passed the
  instant exactly when the instant lies in the last millisecond of its second.
\<close>

lemma one_ms_later:
  "t < replace_microsecond_0 (t + 1000) \<longleftrightarrow> 999000 \<le> t mod 1000000"
proof -
  define q where "q = t div 1000000"
  define m where "m = t mod 1000000"
  have t: "t = q * 1000000 + m" and m: "0 \<le> m" "m < 1000000"
    by (simp_all add: q_def m_def)
  show ?thesis
  proof (cases "m < 999000")
    case True
    with m have "(t + 1000) mod 1000000 = m + 1000"
      unfolding t by (simp add: mod_pos_pos_trivial add.assoc)
    with True m show ?thesis
      unfolding replace_microsecond_0_def m_def [symmetric] by (simp add: t)
  next
    case False
    have "(t + 1000) mod 1000000 = (m + 1000) mod 1000000"
      unfolding t by (simp add: add.assoc)
    also have "\<dots> = (m + 1000 - 1000000) mod 1000000"
      by (metis mod_diff_right_eq mod_self diff_zero)
    also have "\<dots> = m - 999000"
      using False m by (simp add: mod_pos_pos_trivial)
    finally have "(t + 1000) mod 1000000 = m - 999000" .
    with False m show ?thesis
      unfolding replace_microsecond_0_def m_def [symmetric] by (simp add: t)
  qed
qed

text \<open>
  Claim C8, as the code has it. A reaper tick deletes exactly the sessions whose
  \<^verbatim>\<open>session_timeout\<close> is strictly before the clock reading with its microseconds set to
  zero, and keeps every other session as it is. A sweep one millisecond after the timeout
  of a session keeps that session exactly when the microseconds of the timeout are below
  \<open>999000\<close>. (The store is a dictionary, so its keys are distinct.)
\<close>

theorem clean_sessions_tmr_deletes_strictly_older:
  assumes "distinct (map fst sessions)"
  shows "clean_sessions_tmr sessions clock =
           filter (\<lambda>(sid, sess). \<not> session_timeout sess < replace_microsecond_0 clock) sessions \<and>
         (\<forall>(sid, sess) \<in> set sessions.
            clock = session_timeout sess + 1000 \<longrightarrow>
              ((sid, sess) \<in> set (clean_sessions_tmr sessions clock)
                 \<longleftrightarrow> session_timeout sess mod 1000000 < 999000))"
proof -
  have f: "clean_sessions_tmr sessions clock =
           filter (\<lambda>(sid, sess). \<not> session_timeout sess < replace_microsecond_0 clock) sessions"
    using assms by (rule clean_sessions_tmr_filter)
  have "(sid, sess) \<in> set (clean_sessions_tmr sessions clock)
          \<longleftrightarrow> session_timeout sess mod 1000000 < 999000"
    if "(sid, sess) \<in> set sessions" "clock = session_timeout sess + 1000" for sid sess
    using that one_ms_later [of "session_timeout sess"] unfolding f by auto
  with f show ?thesis by blast
qed

text \<open>
  The theorem at a store of two sessions, one second apart in their timeouts, swept one
  millisecond after the later timeout, which keeps the later one; and at a session whose
  timeout is \<open>59.9995\<close> seconds, swept one millisecond later, which deletes it.
\<close>

theorem clean_sessions_tmr_deletes_strictly_older_witness:
  "distinct (map fst [(''a'', c8_session), (''b'', c8_session_b)]) \<and>
   clean_sessions_tmr [(''a'', c8_session), (''b'', c8_session_b)] 60001000 = [(''a'', c8_session)] \<and>
   distinct (map fst [(''c'', c8_session_c)]) \<and>
   (''c'', c8_session_c) \<in> set [(''c'', c8_session_c)] \<and>
   60000500 = session_timeout c8_session_c + 1000 \<and>
   \<not> session_timeout c8_session_c mod 1000000 < 999000 \<and>
   (''c'', c8_session_c) \<notin> set (clean_sessions_tmr [(''c'', c8_session_c)] 60000500)"
proof -
  have d: "distinct (map fst [(''c'', c8_session_c)])" by simp
  have c: "60000500 = session_timeout c8_session_c + 1000"
    and m: "\<not> session_timeout c8_session_c mod 1000000 < 999000"
    by (simp_all add: c8_session_c_def)
  have i: "(''c'', c8_session_c) \<in> set [(''c'', c8_session_c)]" by simp
  from bspec [OF clean_sessions_tmr_deletes_strictly_older [OF d, of 60000500, THEN conjunct2] i]
  have "60000500 = session_timeout c8_session_c + 1000 \<longrightarrow>
      ((''c'', c8_session_c) \<in> set (clean_sessions_tmr [(''c'', c8_session_c)] 60000500))
        = (session_timeout c8_session_c mod 1000000 < 999000)"
    by (simp only: prod.case)
  with c m have n: "(''c'', c8_session_c) \<notin> set (clean_sessions_tmr [(''c'', c8_session_c)] 60000500)"
    by blast
  have d2: "distinct (map fst [(''a'', c8_session), (''b'', c8_session_b)])" by simp
  from clean_sessions_tmr_deletes_strictly_older [OF d2, of 60001000, THEN conjunct1]
  have a: "clean_sessions_tmr [(''a'', c8_session), (''b'', c8_session_b)] 60001000 = [(''a'', c8_session)]"
    by (simp add: c8_session_def c8_session_b_def replace_microsecond_0_def)
  from d2 a d i c m n show ?thesis by (intro conjI)
qed

text \<open>
  Claim C8 as stated fails: a sweep one millisecond after a session's timeout (here
  \<open>60.001\<close> seconds against a timeout of \<open>60\<close> seconds) truncates the clock to the
  timeout itself, the comparison is strict, and the session stays.
\<close>

theorem clean_sessions_tmr_one_ms_later_keeps_session:
  "session_timeout c8_session + 1000 = 60001000 \<and>
   clean_sessions_tmr [(''a'', c8_session)] 60001000 = [(''a'', c8_session)]"
  by (simp add: c8_session_def clean_sessions_tmr_def replace_microsecond_0_def)

section \<open>The conflict resolver skips what does not overlap\<close>

lemma splice_danger_no_overlap:
  assumes "overlap t_ref r \<le> 0"
  shows "splice_danger slv t_ref r = Inr None"
proof -
  from assms have "\<not> 0 < overlap t_ref r" by simp
  then have "\<not> 0 < total_seconds (min (t_ref + timedelta_seconds TIME_HORIZON)
                 (time_ref r + timedelta_seconds TIME_HORIZON) - max t_ref (time_ref r))"
    by (simp only: total_seconds_pos_iff overlap_def simp_thms)
  then show ?thesis
    unfolding splice_danger_def Let_def by (simp only: if_True simp_thms)
qed

lemma resolve_dangers_loop_absent:
  assumes "resolve_dangers_loop slv t_ref rs acc = Inr dangers"
    and "map_of acc sid = None"
    and "\<And>ro. (sid, ro) \<in> set rs \<Longrightarrow> \<exists>r. ro = Some r \<and> splice_danger slv t_ref r = Inr None"
  shows "map_of dangers sid = None"
  using assms
proof (induction slv t_ref rs acc rule: resolve_dangers_loop.induct)
  case (1 slv t_ref dangers')
  then show ?case by simp
next
  case (2 slv t_ref sid' rest dangers')
  then show ?case by simp
next
  case (3 slv t_ref sid' r rest dangers')
  show ?case
  proof (cases "splice_danger slv t_ref r")
    case (Inl e)
    with "3.prems"(1) show ?thesis by simp
  next
    case (Inr d)
    show ?thesis
    proof (cases d)
      case None
      with Inr "3.prems" "3.IH"(1) [of d] show ?thesis by simp
    next
      case (Some danger)
      with Inr "3.prems"(3) [of "Some r"] have ne: "sid' \<noteq> sid" by auto
      from Inr Some "3.prems"(1)
      have "resolve_dangers_loop slv t_ref rest (AList.update sid' danger dangers') = Inr dangers"
        by simp
      moreover have "map_of (AList.update sid' danger dangers') sid = None"
        using ne "3.prems"(2) by (simp add: update_conv')
      ultimately show ?thesis
        using "3.prems"(3) by (intro "3.IH"(2) [OF Inr Some]) auto
    qed
  qed
qed

lemma get_reservations_unreserved:
  "list_all (\<lambda>(sid, sess). \<not> reserved sess) sessions \<Longrightarrow> get_reservations sessions = []"
  by (induction sessions) (auto simp: get_reservations_def)

text \<open>
  Claim C9. With no reserved session \<^verbatim>\<open>resolve_dangers\<close> returns the empty dictionary, and
  whenever it returns, a reserved session whose overlap with the candidate window is zero
  or negative has no entry in the result. (The store is a dictionary, so its keys are
  distinct.)
\<close>

theorem resolve_dangers_empty_or_no_overlap:
  assumes "distinct (map fst sessions)"
  shows "(list_all (\<lambda>(sid, sess). \<not> reserved sess) sessions \<longrightarrow>
            resolve_dangers slv sessions t_ref = Inr []) \<and>
         (\<forall>sid sess r dangers.
            (sid, sess) \<in> set sessions \<and> reserved sess \<and> reservation sess = Some r
              \<and> overlap t_ref r \<le> 0 \<and> resolve_dangers slv sessions t_ref = Inr dangers
            \<longrightarrow> map_of dangers sid = None)"
proof (intro conjI impI allI)
  assume "list_all (\<lambda>(sid, sess). \<not> reserved sess) sessions"
  then show "resolve_dangers slv sessions t_ref = Inr []"
    by (simp add: resolve_dangers_def get_reservations_unreserved)
next
  fix sid sess r dangers
  assume a: "(sid, sess) \<in> set sessions \<and> reserved sess \<and> reservation sess = Some r
    \<and> overlap t_ref r \<le> 0 \<and> resolve_dangers slv sessions t_ref = Inr dangers"
  from a have in_s: "(sid, sess) \<in> set sessions" and res: "reservation sess = Some r"
    and no: "overlap t_ref r \<le> 0"
    and l: "resolve_dangers_loop slv t_ref (get_reservations sessions) [] = Inr dangers"
    by (simp_all add: resolve_dangers_def)
  from assms in_s have m: "map_of sessions sid = Some sess" by (rule map_of_is_SomeI)
  have skip: "\<exists>r'. ro = Some r' \<and> splice_danger slv t_ref r' = Inr None"
    if "(sid, ro) \<in> set (get_reservations sessions)" for ro
  proof -
    from that obtain sess' where s': "(sid, sess') \<in> set sessions" "ro = reservation sess'"
      by (auto simp: get_reservations_def)
    from assms s'(1) have "map_of sessions sid = Some sess'" by (rule map_of_is_SomeI)
    with m have "sess' = sess" by simp
    with s'(2) res no show ?thesis
      by (simp add: splice_danger_no_overlap)
  qed
  have "map_of ([] :: (string \<times> tube) list) sid = None" by simp
  with l show "map_of dangers sid = None"
    by (rule resolve_dangers_loop_absent) (rule skip)
qed

lemma resolve_dangers_example:
  "resolve_dangers ex_solver [(''a'', ex_reserved), (''c'', ex_reserved_later)] 80000000 =
     Inr [(''c'', replicate 70 [0] @ replicate 6 [1])]"
  by code_simp

text \<open>
  The theorem at a store without reservations, and at a store of two reserved sessions
  seen from \<open>80\<close> seconds: the window at \<open>60\<close> seconds has ended, the one at \<open>79\<close>
  seconds is spliced in.
\<close>

theorem resolve_dangers_empty_or_no_overlap_witness:
  "distinct (map fst [(''b'', c2_contender)]) \<and>
   list_all (\<lambda>(sid, sess). \<not> reserved sess) [(''b'', c2_contender)] \<and>
   resolve_dangers ex_solver [(''b'', c2_contender)] 80000000 = Inr [] \<and>
   distinct (map fst [(''a'', ex_reserved), (''c'', ex_reserved_later)]) \<and>
   reserved ex_reserved \<and> reservation ex_reserved = Some ex_reservation \<and>
   overlap 80000000 ex_reservation \<le> 0 \<and>
   resolve_dangers ex_solver [(''a'', ex_reserved), (''c'', ex_reserved_later)] 80000000 =
     Inr [(''c'', replicate 70 [0] @ replicate 6 [1])] \<and>
   map_of [(''c'', replicate 70 [0] @ replicate 6 [1 :: rat])] ''a'' = None"
proof -
  have d1: "distinct (map fst [(''b'', c2_contender)])" by simp
  have u: "list_all (\<lambda>(sid, sess). \<not> reserved sess) [(''b'', c2_contender)]"
    by (simp add: c2_contender_def)
  have d2: "distinct (map fst [(''a'', ex_reserved), (''c'', ex_reserved_later)])" by simp
  have r: "reserved ex_reserved" "reservation ex_reserved = Some ex_reservation"
    by (simp_all add: ex_reserved_def)
  have o: "overlap 80000000 ex_reservation \<le> 0"
    by (simp add: overlap_def ex_reservation_def timedelta_seconds_def TIME_HORIZON_def)
  from resolve_dangers_empty_or_no_overlap [OF d1, of ex_solver 80000000] u
  have e: "resolve_dangers ex_solver [(''b'', c2_contender)] 80000000 = Inr []" by simp
  from resolve_dangers_empty_or_no_overlap [OF d2, of ex_solver 80000000] r o
    resolve_dangers_example
  have "map_of [(''c'', replicate 70 [0] @ replicate 6 [1 :: rat])] ''a'' = None"
    by (metis list.set_intros(1))
  with d1 u e d2 r o resolve_dangers_example show ?thesis by (intro conjI)
qed

section \<open>The first splice case of the conflict resolver\<close>

text \<open>
  Claim C10 fails on the code. With a candidate window that starts one second before a
  stored reservation, the ceiling-divided offsets are \<open>i = 5\<close> and \<open>j = 70\<close>: the
  destination \<^verbatim>\<open>danger[5:]\<close> has 71 rows, the source \<^verbatim>\<open>pass4[:70]\<close> has 70, and the
  assignment raises \<^verbatim>\<open>ValueError\<close>.
\<close>

theorem resolve_dangers_raises_one_second_ahead:
  "length (pass4 (analysis ex_reservation)) = timeline_len ex_solver \<and>
   0 < overlap 59000000 ex_reservation \<and>
   resolve_dangers ex_solver [(''a'', ex_reserved)] 59000000 = Inl ValueError_broadcast"
  by code_simp

text \<open>
  The failure does not depend on the length of the timeline: with tubes as long as the
  timeline, every length from two on has a candidate window that makes the first splice
  case raise, one second ahead of the reservation or a tenth of a second ahead of it.
\<close>

lemma splice_offsets:
  "\<lceil>fdiv (total_seconds 1000000) TIME_STEP\<rceil> = 5"
  "\<lceil>fdiv (total_seconds 14000000) TIME_STEP\<rceil> = 70"
  "\<lceil>fdiv (total_seconds 100000) TIME_STEP\<rceil> = 1"
  "\<lceil>fdiv (total_seconds 14900000) TIME_STEP\<rceil> = 75"
  by code_simp+

lemma set_rows_from_5_raises:
  assumes "length tb = n" "length dg = n" "2 \<le> n" "n \<noteq> 75"
  shows "set_rows dg (Some 5) None (get_rows tb None (Some 70)) = Inl ValueError_broadcast"
  using assms
  by (auto simp add: set_rows_def get_rows_def slice_start_def slice_stop_def slice_index_def
        Let_def min_def)

lemma set_rows_from_1_raises:
  assumes "length tb = 75" "length dg = 75"
  shows "set_rows dg (Some 1) None (get_rows tb None (Some 75)) = Inl ValueError_broadcast"
  using assms
  by (simp add: set_rows_def get_rows_def slice_start_def slice_stop_def slice_index_def Let_def)

lemma splice_danger_raises_one_second:
  assumes "time_ref r = t_ref + 1000000"
    and "length (pass4 (analysis r)) = timeline_len slv"
    and "2 \<le> timeline_len slv" and "timeline_len slv \<noteq> 75"
  shows "splice_danger slv t_ref r = Inl ValueError_broadcast"
proof -
  have ov: "0 < total_seconds 14000000" by (simp add: total_seconds_pos_iff)
  have "splice_danger slv t_ref r =
      map_sum id Some
        (set_rows (replicate (timeline_len slv) (replicate (grid_size slv) 1)) (Some 5) None
           (get_rows (pass4 (analysis r)) None (Some 70)))"
    using ov
    by (simp add: splice_danger_def Let_def timedelta_seconds_def TIME_HORIZON_def
          splice_offsets assms(1))
  also have "\<dots> = Inl ValueError_broadcast"
    using assms(2-4) by (simp add: set_rows_from_5_raises)
  finally show ?thesis .
qed

lemma splice_danger_raises_tenth_second:
  assumes "time_ref r = t_ref + 100000"
    and "length (pass4 (analysis r)) = timeline_len slv"
    and "timeline_len slv = 75"
  shows "splice_danger slv t_ref r = Inl ValueError_broadcast"
proof -
  have ov: "0 < total_seconds 14900000" by (simp add: total_seconds_pos_iff)
  have "splice_danger slv t_ref r =
      map_sum id Some
        (set_rows (replicate (timeline_len slv) (replicate (grid_size slv) 1)) (Some 1) None
           (get_rows (pass4 (analysis r)) None (Some 75)))"
    using ov
    by (simp add: splice_danger_def Let_def timedelta_seconds_def TIME_HORIZON_def
          splice_offsets assms(1))
  also have "\<dots> = Inl ValueError_broadcast"
    using assms(2-3) by (simp add: set_rows_from_1_raises)
  finally show ?thesis .
qed

section \<open>What a reserve call computes\<close>

text \<open>
  \<^verbatim>\<open>reserve\<close> in terms of these.
\<close>

lemma reserve_unfold:
  "reserve slv sessions sid req resp =
     (case r_time_ref req of
        None \<Rightarrow> Inr (sessions, resp\<lparr>reason := Malformed_ISO_time\<rparr>)
      | Some time_ref0 \<Rightarrow>
          if \<not> aligned_window_ok req
          then Inr (sessions,
                 resp\<lparr>reason := Reservation_Error (Invalid_window_offsetting (alignment_offset req))\<rparr>)
          else if max_window_entry_of req = 0
          then Inr (sessions, resp\<lparr>reason := Reservation_Error Invalid_entry_window_requested\<rparr>)
          else
            (case resolve_dangers slv sessions
                    (time_ref0 + timedelta_seconds_float (alignment_offset req)) of
               Inl e \<Rightarrow> Inl e
             | Inr dangers \<Rightarrow>
                 (case run_analysis slv (max_window_entry_of req) (r_entry req) (r_exit req)
                         (other_dangers sid dangers) of
                    Inl msg \<Rightarrow>
                      Inr (sessions, resp\<lparr>reason := Reservation_Error (Analysis_assertion msg)\<rparr>)
                  | Inr result \<Rightarrow>
                      if \<not> 0 < fsub (latest_entry (granted_reservation req time_ref0 result))
                                     (earliest_entry (granted_reservation req time_ref0 result))
                      then Inr (sessions,
                             resp\<lparr>reason := Reservation_Error No_time_window_to_enter_region\<rparr>)
                      else Inr (add_reservation sessions sid (granted_reservation req time_ref0 result),
                                granted_response resp (granted_reservation req time_ref0 result)))))"
  unfolding reserve_def Let_def granted_reservation_def granted_response_def aligned_window_ok_def
    aligned_earliest_entry_def aligned_latest_entry_def alignment_offset_def
    clamped_earliest_entry_def clamped_latest_entry_def max_window_entry_of_def other_dangers_def
  by (simp only: reservation_dict.select_convs)

lemma reserve_outcome:
  assumes "reserve slv sessions sid req resp = Inr (sessions', resp')"
  shows "(sessions' = sessions \<and> success resp' = success resp \<and> reason resp' \<noteq> No_reason) \<or>
         (\<exists>time_ref0 result.
            r_time_ref req = Some time_ref0 \<and> aligned_window_ok req
            \<and> 0 < fsub (latest_entry (granted_reservation req time_ref0 result))
                        (earliest_entry (granted_reservation req time_ref0 result))
            \<and> sessions' = add_reservation sessions sid (granted_reservation req time_ref0 result)
            \<and> resp' = granted_response resp (granted_reservation req time_ref0 result))"
  using assms unfolding reserve_unfold
  by (auto split: option.splits sum.splits if_splits)

lemma reserve_srv_eq_reserve:
  assumes "passes_route_and_deadline sessions req time_ref0 clock1 clock2"
  shows "reserve_srv slv sessions req clock1 clock2 =
           reserve slv sessions (r_name req) req initial_reserve_response"
  using assms
  by (simp add: reserve_srv_def passes_route_and_deadline_def Let_def initial_reserve_response_def)

lemma reserve_srv_outcome:
  assumes "reserve_srv slv sessions req clock1 clock2 = Inr (sessions', resp')"
  shows "(sessions' = sessions \<and> \<not> success resp' \<and> reason resp' \<noteq> No_reason) \<or>
         (\<exists>time_ref0 result.
            passes_route_and_deadline sessions req time_ref0 clock1 clock2
            \<and> aligned_window_ok req
            \<and> 0 < fsub (latest_entry (granted_reservation req time_ref0 result))
                        (earliest_entry (granted_reservation req time_ref0 result))
            \<and> sessions' = add_reservation sessions (r_name req) (granted_reservation req time_ref0 result)
            \<and> resp' = granted_response initial_reserve_response
                         (granted_reservation req time_ref0 result))"
proof (cases "\<exists>time_ref0. passes_route_and_deadline sessions req time_ref0 clock1 clock2")
  case True
  then obtain time_ref0 where p: "passes_route_and_deadline sessions req time_ref0 clock1 clock2" ..
  from assms have "reserve slv sessions (r_name req) req initial_reserve_response = Inr (sessions', resp')"
    by (simp only: reserve_srv_eq_reserve [OF p])
  from reserve_outcome [OF this] p show ?thesis
    by (auto simp: initial_reserve_response_def passes_route_and_deadline_def)
next
  case False
  with assms show ?thesis
    unfolding reserve_srv_def passes_route_and_deadline_def Let_def
    by (auto split: option.splits if_splits)
qed

section \<open>A second reserve call on a reserved session\<close>

lemma add_reservation_unknown:
  "map_of sessions sid = None \<Longrightarrow> add_reservation sessions sid r = sessions"
  by (simp add: add_reservation_def)






section \<open>Unknown ids, and the id under which a session is stored\<close>

text \<open>
  For an id that is not in the store, neither handler changes the store, and
  \<^verbatim>\<open>notify_srv\<close> answers \<open>-1000\<close> (deadline passed) or \<open>-3000\<close> (unconnected user).
\<close>

lemma reserve_srv_unknown_keeps_store:
  assumes "map_of sessions (r_name req) = None"
    and "reserve_srv slv sessions req clock1 clock2 = Inr (sessions', resp)"
  shows "sessions' = sessions"
  using reserve_srv_outcome [OF assms(2)] assms(1)
  by (auto simp: add_reservation_unknown)

lemma notify_srv_unknown:
  assumes "map_of sessions (n_usr_id req) = None"
    and "notify_srv sessions req clock1 clock2 = Inr (sessions', resp)"
  shows "sessions' = sessions \<and> (n_transit_time resp = - 1000 \<or> n_transit_time resp = - 3000)"
  using assms
  by (auto simp: notify_srv_def Let_def fromisoformat_def split: option.splits if_splits)







section \<open>The reserved flag\<close>














section \<open>The window of a stored reservation\<close>















section \<open>The alignment of the reserved window\<close>











text \<open>
  In floating point \<^verbatim>\<open>1.0 % 0.2\<close> is \<^verbatim>\<open>0.19999999999999996\<close>, so a window that starts one
  second after \<^verbatim>\<open>time_ref\<close> gets the offset \<open>1.2\<close>, a negative earliest entry, and is
  rejected.
\<close>

lemma reserve_rejects_window_from_one_second:
  "passes_route_and_deadline [(''a'', ex_session)] c7_request_from_one 60000000 10000000 10000000 \<and>
   reserve_srv ex_solver [(''a'', ex_session)] c7_request_from_one 10000000 10000000 =
     Inr ([(''a'', ex_session)],
          initial_reserve_response
            \<lparr>reason := Reservation_Error
               (Invalid_window_offsetting (5404319552844595 / 4503599627370496))\<rparr>) \<and>
   aligned_earliest_entry c7_request_from_one < 0"
  by code_simp


end
